theory Spec2Isabelle
  imports Main "HOL-Library.Sublist"
begin

section \<open>Data model\<close>

text \<open>
  The fields of the Drive API's \<open>drive.File\<close> that gdrive.go reads or writes.
  \<open>Id\<close> is a constant of HOL, so the fields carry the prefix \<open>d_\<close>.
  \<open>Size\<close> is an \<open>int64\<close>; the code only compares it with 0 and copies it.
\<close>

record drive_File =
  d_Id :: string
  d_Name :: string
  d_MimeType :: string
  d_Size :: int
  d_WebViewLink :: string
  d_Parents :: "string list"

text \<open>\<open>FileInfo\<close> (gdrive.go, 79-87).\<close>

record FileInfo =
  ID :: string
  Name :: string
  MimeType :: string
  Size :: int
  WebViewLink :: string
  Parents :: "string list"
  FolderPath :: string

section \<open>Path resolution\<close>

text \<open>\<open>strings.Join\<close> of the Go standard library.\<close>

fun Join :: "string list \<Rightarrow> string \<Rightarrow> string" where
  "Join [] sep = []"
| "Join [x] sep = x"
| "Join (x # y # ys) sep = x @ sep @ Join (y # ys) sep"

text \<open>
  The two maps that the enumeration calls fill from the folder listing:
  \<open>folderMap[folder.Id] = folder.Name\<close> (both calls) and
  \<open>folderParentMap[folder.Id] = folder.Parents\<close> (ListFilesInFolder only).
  A later entry with the same key overwrites an earlier one.
\<close>

definition folderMap :: "drive_File list \<Rightarrow> (string \<rightharpoonup> string)" where
  "folderMap folders = fold (\<lambda>folder m. m(d_Id folder \<mapsto> d_Name folder)) folders Map.empty"

definition folderParentMap :: "drive_File list \<Rightarrow> (string \<rightharpoonup> string list)" where
  "folderParentMap folders =
     fold (\<lambda>folder m. m(d_Id folder \<mapsto> d_Parents folder)) folders Map.empty"

text \<open>
  The inner loop of buildPath in ListFiles (gdrive.go, 248-253): the first folder of the
  listing with the current identifier and a non-empty parent list gives the next
  identifier; when there is none, \<open>currentID\<close> keeps its value.
\<close>

definition nextID :: "drive_File list \<Rightarrow> string \<Rightarrow> string" where
  "nextID folders currentID =
     (case find (\<lambda>folder. d_Id folder = currentID \<and> d_Parents folder \<noteq> []) folders of
        Some folder \<Rightarrow> (case d_Parents folder of p # _ \<Rightarrow> p | [] \<Rightarrow> currentID)
      | None \<Rightarrow> currentID)"

text \<open>
  The loop of buildPath in ListFiles (gdrive.go, 243-257), with its state
  \<open>i\<close>, \<open>currentID\<close>, \<open>visited\<close> and \<open>pathParts\<close>.
\<close>

function walk_ListFiles ::
  "drive_File list \<Rightarrow> nat \<Rightarrow> string \<Rightarrow> string set \<Rightarrow> string list \<Rightarrow> string list" where
  "walk_ListFiles folders i currentID visited pathParts =
     (if i < 10 \<and> currentID \<noteq> [] \<and> currentID \<notin> visited then
        (case folderMap folders currentID of
           Some folderName \<Rightarrow>
             walk_ListFiles folders (i + 1) (nextID folders currentID)
               (insert currentID visited) (folderName # pathParts)
         | None \<Rightarrow> pathParts)
      else pathParts)"
  by pat_completeness auto
termination
  by (relation "measure (\<lambda>(folders, i, currentID, visited, pathParts). 10 - i)") auto

text \<open>The loop of buildPath in ListFilesInFolder (gdrive.go, 365-377).\<close>

function walk_ListFilesInFolder ::
  "drive_File list \<Rightarrow> nat \<Rightarrow> string \<Rightarrow> string set \<Rightarrow> string list \<Rightarrow> string list" where
  "walk_ListFilesInFolder folders i currentID visited pathParts =
     (if i < 10 \<and> currentID \<noteq> [] \<and> currentID \<notin> visited then
        (case folderMap folders currentID of
           Some folderName \<Rightarrow>
             (case folderParentMap folders currentID of
                Some (p # _) \<Rightarrow>
                  walk_ListFilesInFolder folders (i + 1) p
                    (insert currentID visited) (folderName # pathParts)
              | _ \<Rightarrow> folderName # pathParts)
         | None \<Rightarrow> pathParts)
      else pathParts)"
  by pat_completeness auto
termination
  by (relation "measure (\<lambda>(folders, i, currentID, visited, pathParts). 10 - i)") auto

declare walk_ListFiles.simps [simp del]
declare walk_ListFilesInFolder.simps [simp del]

text \<open>
  The path segments that buildPath has accumulated when its loop ends
  (\<open>pathParts\<close>), for a non-empty parent list.
\<close>

definition pathParts_ListFiles :: "drive_File list \<Rightarrow> string list \<Rightarrow> string list" where
  "pathParts_ListFiles folders parentIDs =
     (case parentIDs of [] \<Rightarrow> [] | p # _ \<Rightarrow> walk_ListFiles folders 0 p {} [])"

definition pathParts_ListFilesInFolder :: "drive_File list \<Rightarrow> string list \<Rightarrow> string list" where
  "pathParts_ListFilesInFolder folders parentIDs =
     (case parentIDs of [] \<Rightarrow> [] | p # _ \<Rightarrow> walk_ListFilesInFolder folders 0 p {} [])"

text \<open>buildPath of ListFiles (gdrive.go, 233-263).\<close>

definition buildPath_ListFiles :: "drive_File list \<Rightarrow> string list \<Rightarrow> string" where
  "buildPath_ListFiles folders parentIDs =
     (if parentIDs = [] then ''My Drive''
      else let pathParts = pathParts_ListFiles folders parentIDs in
        if pathParts = [] then ''My Drive''
        else ''My Drive/'' @ Join pathParts ''/'')"

text \<open>buildPath of ListFilesInFolder (gdrive.go, 356-383).\<close>

definition buildPath_ListFilesInFolder :: "drive_File list \<Rightarrow> string list \<Rightarrow> string" where
  "buildPath_ListFilesInFolder folders parentIDs =
     (if parentIDs = [] then ''My Drive''
      else let pathParts = pathParts_ListFilesInFolder folders parentIDs in
        if pathParts = [] then ''My Drive''
        else ''My Drive/'' @ Join pathParts ''/'')"

text \<open>
  Vocabulary of the claims on path resolution. \<open>parent_link folders a b\<close>: the listing
  has a folder \<open>a\<close> whose first parent is \<open>b\<close>. A cycle is a list of distinct
  identifiers each linked to the next and the last to the first; a chain is a list of
  distinct identifiers each linked to the next. Identifiers of the service are non-empty
  and unique in a listing (\<open>wf_folders\<close>).
\<close>

definition parent_link :: "drive_File list \<Rightarrow> string \<Rightarrow> string \<Rightarrow> bool" where
  "parent_link folders a b =
     list_ex (\<lambda>folder. d_Id folder = a \<and>
        (case d_Parents folder of p # _ \<Rightarrow> p = b | [] \<Rightarrow> False)) folders"

definition wf_folders :: "drive_File list \<Rightarrow> bool" where
  "wf_folders folders = (distinct (map d_Id folders) \<and> list_all (\<lambda>f. d_Id f \<noteq> []) folders)"

definition is_cycle :: "drive_File list \<Rightarrow> string list \<Rightarrow> bool" where
  "is_cycle folders cs =
     (cs \<noteq> [] \<and> distinct cs \<and> list_all2 (parent_link folders) cs (rotate1 cs))"

definition is_chain :: "drive_File list \<Rightarrow> string list \<Rightarrow> bool" where
  "is_chain folders cs =
     (distinct cs \<and> list_all (\<lambda>c. c \<in> set (map d_Id folders)) cs \<and>
      successively (parent_link folders) cs)"

text \<open>The name under which the index holds an identifier.\<close>

definition nameOf :: "drive_File list \<Rightarrow> string \<Rightarrow> string" where
  "nameOf folders c = (case folderMap folders c of Some n \<Rightarrow> n | None \<Rightarrow> [])"


section \<open>The remote service\<close>

text \<open>
  Go's \<open>error\<close> values as the code builds them: \<open>errors.New(msg)\<close>,
  \<open>fmt.Errorf("msg: %w", err)\<close> (the text before \<open>: %w\<close> and the wrapped
  error) and \<open>fmt.Errorf("msg: %d", n)\<close>. Every error the code creates itself before
  a request is an \<open>errors.New\<close>; errors of the service, the transport, a reader
  or a writer come from the environment and are values of the same type.
\<close>

datatype error =
  New string
  | Errorf_w string error
  | Errorf_d string int

type_synonym bytes = "char list"

text \<open>
  A listing request as the code configures it (\<open>Q\<close>, \<open>Fields\<close>, \<open>PageSize\<close>,
  \<open>PageToken\<close>; an empty string is a parameter that was not set) and the
  \<open>drive.FileList\<close> it answers with.
\<close>

record list_call =
  Q :: string
  Fields :: string
  PageSize :: int
  PageToken :: string

record FileList =
  Files :: "drive_File list"
  NextPageToken :: string

text \<open>
  An \<open>http.Response\<close>: its status and its body. A body delivers \<open>data\<close> and
  then ends, with EOF (\<open>failure = None\<close>) or with a read error.
\<close>

record body =
  data :: bytes
  failure :: "error option"

record http_Response =
  StatusCode :: int
  Body :: body

text \<open>
  An \<open>io.Writer\<close>: it accepts \<open>accepts\<close> more bytes (\<open>None\<close>: any number)
  and then fails with \<open>wfailure\<close>. An \<open>io.Reader\<close> passed by the caller
  is the bytes it holds; \<open>None\<close> is the nil reader.
\<close>

record writer =
  accepts :: "nat option"
  wfailure :: error

text \<open>
  \<open>io.Copy(w, body)\<close> of the Go standard library: the number of bytes written and the
  first error met; a body that ends with EOF is no error.
\<close>

definition io_Copy :: "writer \<Rightarrow> body \<Rightarrow> int \<times> error option" where
  "io_Copy w b =
     (case accepts w of
        None \<Rightarrow> (int (length (data b)), failure b)
      | Some n \<Rightarrow>
          if n < length (data b) then (int n, Some (wfailure w))
          else (int (length (data b)), failure b))"

text \<open>
  The calls of the Drive API client that gdrive.go issues. The \<open>Range\<close> header
  \<open>bytes=<start>-<end>\<close> of a revision download is kept as the pair of its two
  numbers; \<open>None\<close> is a download without the header.
\<close>

datatype request =
  Files_List list_call
  | Files_Get string string
  | Files_Get_Download string
  | Files_Export_Download string string
  | Files_Create drive_File bytes string
  | Revisions_Get_Download string string "(int \<times> int) option"

text \<open>The service behind \<open>dc.service\<close>: what each call answers.\<close>

record service =
  files_list :: "list_call \<Rightarrow> error + FileList"
  files_get :: "string \<Rightarrow> string \<Rightarrow> error + drive_File"
  files_get_download :: "string \<Rightarrow> error + http_Response"
  files_export_download :: "string \<Rightarrow> string \<Rightarrow> error + http_Response"
  files_create :: "drive_File \<Rightarrow> bytes \<Rightarrow> string \<Rightarrow> error + drive_File"
  revisions_get_download :: "string \<Rightarrow> string \<Rightarrow> (int \<times> int) option \<Rightarrow> error + http_Response"

definition StatusOK :: int where
  "StatusOK = 200"

definition StatusPartialContent :: int where
  "StatusPartialContent = 206"

definition MaxPageSize :: int where
  "MaxPageSize = 100"

definition folderMimeType :: string where
  "folderMimeType = ''application/vnd.google-apps.folder''"

section \<open>Enumeration\<close>

text \<open>The folder listing request of both enumeration calls (gdrive.go, 217-221, 339-343).\<close>

definition foldersCall :: list_call where
  "foldersCall = \<lparr>Q = ''mimeType='' @ [CHR 0x27] @ folderMimeType @ [CHR 0x27],
     Fields = ''files(id, name, parents)'', PageSize = 1000, PageToken = []\<rparr>"

text \<open>
  The loop over the files of one page in ListFiles (gdrive.go, 281-296): folders and
  zero-byte files are skipped, every other item is appended with its folder path.
\<close>

fun collect_ListFiles :: "drive_File list \<Rightarrow> drive_File list \<Rightarrow> FileInfo list \<Rightarrow> FileInfo list" where
  "collect_ListFiles folders [] files = files"
| "collect_ListFiles folders (item # items) files =
     (if d_Size item = 0 \<or> d_MimeType item = folderMimeType
      then collect_ListFiles folders items files
      else collect_ListFiles folders items
        (files @ [\<lparr>ID = d_Id item, Name = d_Name item, MimeType = d_MimeType item,
           Size = d_Size item, WebViewLink = d_WebViewLink item, Parents = d_Parents item,
           FolderPath = buildPath_ListFiles folders (d_Parents item)\<rparr>]))"

text \<open>
  The pagination loop of ListFiles (gdrive.go, 266-302). Nothing bounds the number of
  pages a service may announce, so the loop is a partial function: \<open>None\<close> is a call
  that never returns.
\<close>

partial_function (option) pages_ListFiles ::
  "service \<Rightarrow> drive_File list \<Rightarrow> string \<Rightarrow> FileInfo list \<Rightarrow> (error + FileInfo list) option" where
  "pages_ListFiles srv folders pageToken files =
     (case files_list srv \<lparr>Q = [],
         Fields = ''nextPageToken, files(id, name, mimeType, size, webViewLink, parents)'',
         PageSize = MaxPageSize, PageToken = pageToken\<rparr> of
        Inl err \<Rightarrow> Some (Inl (Errorf_w ''unable to retrieve files'' err))
      | Inr r \<Rightarrow>
          if NextPageToken r = []
          then Some (Inr (collect_ListFiles folders (Files r) files))
          else pages_ListFiles srv folders (NextPageToken r)
                 (collect_ListFiles folders (Files r) files))"

text \<open>ListFiles (gdrive.go, 209-305).\<close>

definition ListFiles :: "service \<Rightarrow> (error + FileInfo list) option" where
  "ListFiles srv =
     (case files_list srv foldersCall of
        Inl err \<Rightarrow> Some (Inl (Errorf_w ''unable to retrieve folders'' err))
      | Inr foldersResp \<Rightarrow> pages_ListFiles srv (Files foldersResp) [] [])"

text \<open>The same loops in ListFilesInFolder (gdrive.go, 386-422).\<close>

fun collect_ListFilesInFolder :: "drive_File list \<Rightarrow> drive_File list \<Rightarrow> FileInfo list \<Rightarrow> FileInfo list" where
  "collect_ListFilesInFolder folders [] files = files"
| "collect_ListFilesInFolder folders (item # items) files =
     (if d_MimeType item = folderMimeType \<or> d_Size item = 0
      then collect_ListFilesInFolder folders items files
      else collect_ListFilesInFolder folders items
        (files @ [\<lparr>ID = d_Id item, Name = d_Name item, MimeType = d_MimeType item,
           Size = d_Size item, WebViewLink = d_WebViewLink item, Parents = d_Parents item,
           FolderPath = buildPath_ListFilesInFolder folders (d_Parents item)\<rparr>]))"

partial_function (option) pages_ListFilesInFolder ::
  "service \<Rightarrow> string \<Rightarrow> drive_File list \<Rightarrow> string \<Rightarrow> FileInfo list \<Rightarrow> (error + FileInfo list) option" where
  "pages_ListFilesInFolder srv query folders pageToken files =
     (case files_list srv \<lparr>Q = query,
         Fields = ''nextPageToken, files(id, name, mimeType, size, webViewLink, parents)'',
         PageSize = MaxPageSize, PageToken = pageToken\<rparr> of
        Inl err \<Rightarrow> Some (Inl (Errorf_w ''unable to retrieve files'' err))
      | Inr r \<Rightarrow>
          if NextPageToken r = []
          then Some (Inr (collect_ListFilesInFolder folders (Files r) files))
          else pages_ListFilesInFolder srv query folders (NextPageToken r)
                 (collect_ListFilesInFolder folders (Files r) files))"

definition ListFilesInFolder :: "service \<Rightarrow> string \<Rightarrow> (error + FileInfo list) option" where
  "ListFilesInFolder srv parentFolderID =
     (let query = (if parentFolderID \<noteq> []
                   then [CHR 0x27] @ parentFolderID @ [CHR 0x27] @ '' in parents and trashed=false''
                   else ''trashed=false'')
      in case files_list srv foldersCall of
        Inl err \<Rightarrow> Some (Inl (Errorf_w ''unable to retrieve folders'' err))
      | Inr foldersResp \<Rightarrow> pages_ListFilesInFolder srv query (Files foldersResp) [] [])"


section \<open>Transfers\<close>

text \<open>
  A transfer returns Go's pair \<open>(int64, error)\<close>, here \<open>int \<times> error option\<close>, and
  the requests it has issued, in order. The context only reaches the service, whose
  answer (an error when the context is cancelled) is part of \<open>service\<close>.
\<close>

type_synonym transfer = "(int \<times> error option) \<times> request list"

text \<open>StreamFile (gdrive.go, 448-469).\<close>

definition StreamFile :: "service \<Rightarrow> string \<Rightarrow> writer \<Rightarrow> transfer" where
  "StreamFile srv fileID w =
     (if fileID = [] then ((0, Some (New ''file ID cannot be empty'')), [])
      else case files_get_download srv fileID of
        Inl err \<Rightarrow>
          ((0, Some (Errorf_w ''unable to download file'' err)), [Files_Get_Download fileID])
      | Inr resp \<Rightarrow>
          if StatusCode resp \<noteq> StatusOK
          then ((0, Some (Errorf_d ''unexpected status code'' (StatusCode resp))),
                [Files_Get_Download fileID])
          else (case io_Copy w (Body resp) of
            (written, Some err) \<Rightarrow>
              ((written, Some (Errorf_w ''unable to stream file content'' err)),
               [Files_Get_Download fileID])
          | (written, None) \<Rightarrow> ((written, None), [Files_Get_Download fileID])))"

text \<open>PartialDownloadOptions (gdrive.go, 785-788); both fields are \<open>int64\<close>.\<close>

record PartialDownloadOptions =
  StartByte :: int
  EndByte :: int

text \<open>PartialDownloadFile (gdrive.go, 816-847).\<close>

definition PartialDownloadFile ::
  "service \<Rightarrow> string \<Rightarrow> writer \<Rightarrow> PartialDownloadOptions \<Rightarrow> transfer" where
  "PartialDownloadFile srv fileID w opts =
     (if fileID = [] then ((0, Some (New ''file ID cannot be empty'')), [])
      else if StartByte opts < 0 \<or> EndByte opts < 0
      then ((0, Some (New ''byte positions cannot be negative'')), [])
      else if StartByte opts > EndByte opts
      then ((0, Some (New ''start byte must be less than or equal to end byte'')), [])
      else let call = Revisions_Get_Download fileID fileID (Some (StartByte opts, EndByte opts))
      in case revisions_get_download srv fileID fileID (Some (StartByte opts, EndByte opts)) of
        Inl err \<Rightarrow> ((0, Some (Errorf_w ''unable to download revision'' err)), [call])
      | Inr resp \<Rightarrow>
          if StatusCode resp \<noteq> StatusPartialContent \<and> StatusCode resp \<noteq> StatusOK
          then ((0, Some (Errorf_d ''unexpected status code'' (StatusCode resp))), [call])
          else (case io_Copy w (Body resp) of
            (written, Some err) \<Rightarrow>
              ((written, Some (Errorf_w ''unable to write revision content'' err)), [call])
          | (written, None) \<Rightarrow> ((written, None), [call])))"

text \<open>ExportWorkspaceDocument (gdrive.go, 925-948); an ExportFormat is a string.\<close>

definition ExportWorkspaceDocument :: "service \<Rightarrow> string \<Rightarrow> writer \<Rightarrow> string \<Rightarrow> transfer" where
  "ExportWorkspaceDocument srv fileID w format =
     (if fileID = [] then ((0, Some (New ''file ID cannot be empty'')), [])
      else if format = [] then ((0, Some (New ''export format cannot be empty'')), [])
      else case files_export_download srv fileID format of
        Inl err \<Rightarrow>
          ((0, Some (Errorf_w ''unable to export document'' err)),
           [Files_Export_Download fileID format])
      | Inr resp \<Rightarrow>
          if StatusCode resp \<noteq> StatusOK
          then ((0, Some (Errorf_d ''unexpected status code'' (StatusCode resp))),
                [Files_Export_Download fileID format])
          else (case io_Copy w (Body resp) of
            (written, Some err) \<Rightarrow>
              ((written, Some (Errorf_w ''unable to write exported content'' err)),
               [Files_Export_Download fileID format])
          | (written, None) \<Rightarrow> ((written, None), [Files_Export_Download fileID format])))"

text \<open>DownloadRevision (gdrive.go, 1051-1077).\<close>

definition DownloadRevision :: "service \<Rightarrow> string \<Rightarrow> string \<Rightarrow> writer \<Rightarrow> transfer" where
  "DownloadRevision srv fileID revisionID w =
     (if fileID = [] then ((0, Some (New ''file ID cannot be empty'')), [])
      else if revisionID = [] then ((0, Some (New ''revision ID cannot be empty'')), [])
      else case revisions_get_download srv fileID revisionID None of
        Inl err \<Rightarrow>
          ((0, Some (Errorf_w ''unable to download revision'' err)),
           [Revisions_Get_Download fileID revisionID None])
      | Inr resp \<Rightarrow>
          if StatusCode resp \<noteq> StatusOK
          then ((0, Some (Errorf_d ''unexpected status code'' (StatusCode resp))),
                [Revisions_Get_Download fileID revisionID None])
          else (case io_Copy w (Body resp) of
            (written, Some err) \<Rightarrow>
              ((written, Some (Errorf_w ''unable to write revision content'' err)),
               [Revisions_Get_Download fileID revisionID None])
          | (written, None) \<Rightarrow> ((written, None), [Revisions_Get_Download fileID revisionID None])))"

text \<open>PartialDownloadRevision (gdrive.go, 1098-1132).\<close>

definition PartialDownloadRevision ::
  "service \<Rightarrow> string \<Rightarrow> string \<Rightarrow> writer \<Rightarrow> PartialDownloadOptions \<Rightarrow> transfer" where
  "PartialDownloadRevision srv fileID revisionID w opts =
     (if fileID = [] then ((0, Some (New ''file ID cannot be empty'')), [])
      else if revisionID = [] then ((0, Some (New ''revision ID cannot be empty'')), [])
      else if StartByte opts < 0 \<or> EndByte opts < 0
      then ((0, Some (New ''byte positions cannot be negative'')), [])
      else if StartByte opts > EndByte opts
      then ((0, Some (New ''start byte must be less than or equal to end byte'')), [])
      else let call = Revisions_Get_Download fileID revisionID (Some (StartByte opts, EndByte opts))
      in case revisions_get_download srv fileID revisionID (Some (StartByte opts, EndByte opts)) of
        Inl err \<Rightarrow> ((0, Some (Errorf_w ''unable to download revision'' err)), [call])
      | Inr resp \<Rightarrow>
          if StatusCode resp \<noteq> StatusPartialContent \<and> StatusCode resp \<noteq> StatusOK
          then ((0, Some (Errorf_d ''unexpected status code'' (StatusCode resp))), [call])
          else (case io_Copy w (Body resp) of
            (written, Some err) \<Rightarrow>
              ((written, Some (Errorf_w ''unable to write revision content'' err)), [call])
          | (written, None) \<Rightarrow> ((written, None), [call])))"

section \<open>Upload and metadata\<close>

text \<open>
  UploadFileFromReader (gdrive.go, 613-644): the new identifier or an error, and the
  requests issued. The metadata sent is a \<open>drive.File\<close> with \<open>Name\<close>,
  \<open>MimeType\<close> and, when a parent is given, \<open>Parents\<close> set, every other field at
  its zero value. The line the code prints to standard output after a successful upload
  is not part of the result.
\<close>

definition UploadFileFromReader ::
  "service \<Rightarrow> bytes option \<Rightarrow> string \<Rightarrow> string \<Rightarrow> string \<Rightarrow> (error + string) \<times> request list" where
  "UploadFileFromReader srv reader fileName mimeType parentFolderID =
     (case reader of
        None \<Rightarrow> (Inl (New ''reader cannot be nil''), [])
      | Some media \<Rightarrow>
          if fileName = [] then (Inl (New ''file name cannot be empty''), [])
          else let mimeType' = (if mimeType = [] then ''application/octet-stream'' else mimeType);
                   fileMeta = \<lparr>d_Id = [], d_Name = fileName, d_MimeType = mimeType', d_Size = 0,
                     d_WebViewLink = [],
                     d_Parents = (if parentFolderID \<noteq> [] then [parentFolderID] else [])\<rparr>;
                   fields = ''id, name, mimeType, size, parents, webViewLink''
          in (case files_create srv fileMeta media fields of
            Inl err \<Rightarrow>
              (Inl (Errorf_w ''unable to upload file'' err), [Files_Create fileMeta media fields])
          | Inr uploadedFile \<Rightarrow> (Inr (d_Id uploadedFile), [Files_Create fileMeta media fields])))"

text \<open>IsWorkspaceDocument (gdrive.go, 1159-1181).\<close>

definition IsWorkspaceDocument :: "service \<Rightarrow> string \<Rightarrow> (error + bool) \<times> request list" where
  "IsWorkspaceDocument srv fileID =
     (if fileID = [] then (Inl (New ''file ID cannot be empty''), [])
      else case files_get srv fileID ''mimeType'' of
        Inl err \<Rightarrow>
          (Inl (Errorf_w ''unable to get file metadata'' err), [Files_Get fileID ''mimeType''])
      | Inr file \<Rightarrow>
          let isWorkspace = (length (d_MimeType file) > 28 \<and>
                take 28 (d_MimeType file) = ''application/vnd.google-apps.'')
          in if d_MimeType file = ''application/vnd.google-apps.folder''
             then (Inr False, [Files_Get fileID ''mimeType''])
             else (Inr isWorkspace, [Files_Get fileID ''mimeType'']))"


section \<open>Example listings and services\<close>

text \<open>A folder as a listing returns it.\<close>

definition mkFolder :: "string \<Rightarrow> string \<Rightarrow> string list \<Rightarrow> drive_File" where
  "mkFolder i n ps = \<lparr>d_Id = i, d_Name = n, d_MimeType = ''application/vnd.google-apps.folder'',
     d_Size = 0, d_WebViewLink = [], d_Parents = ps\<rparr>"

definition cycle_AB :: "drive_File list" where
  "cycle_AB = [mkFolder ''idA'' ''A'' [''idB''], mkFolder ''idB'' ''B'' [''idA'']]"

definition deep_folders :: "drive_File list" where
  "deep_folders =
     [mkFolder ''f0'' ''n0'' [''f1''], mkFolder ''f1'' ''n1'' [''f2''],
      mkFolder ''f2'' ''n2'' [''f3''], mkFolder ''f3'' ''n3'' [''f4''],
      mkFolder ''f4'' ''n4'' [''f5''], mkFolder ''f5'' ''n5'' [''f6''],
      mkFolder ''f6'' ''n6'' [''f7''], mkFolder ''f7'' ''n7'' [''f8''],
      mkFolder ''f8'' ''n8'' [''f9''], mkFolder ''f9'' ''n9'' [''f10''],
      mkFolder ''f10'' ''n10'' []]"

definition deep_ids :: "string list" where
  "deep_ids = [''f0'', ''f1'', ''f2'', ''f3'', ''f4'', ''f5'', ''f6'', ''f7'', ''f8'', ''f9'', ''f10'']"


text \<open>A service that answers every call with an error.\<close>

definition offline :: service where
  "offline = \<lparr>files_list = (\<lambda>c. Inl (New ''offline'')),
     files_get = (\<lambda>fileID fields. Inl (New ''offline'')),
     files_get_download = (\<lambda>fileID. Inl (New ''offline'')),
     files_export_download = (\<lambda>fileID format. Inl (New ''offline'')),
     files_create = (\<lambda>meta media fields. Inl (New ''offline'')),
     revisions_get_download = (\<lambda>fileID revisionID range. Inl (New ''offline''))\<rparr>"

text \<open>
  A service that holds the objects \<open>objs\<close> and answers a listing request as the Drive
  API does: the objects that match the query (the folders for the folder query, every
  object otherwise), at most \<open>PageSize\<close> of them from the position the page token
  stands for, and a token for the next page when objects remain.
\<close>

definition pageTokenAt :: "nat \<Rightarrow> string" where
  "pageTokenAt n = replicate n CHR ''t''"

definition paged_list :: "drive_File list \<Rightarrow> list_call \<Rightarrow> error + FileList" where
  "paged_list objs c =
     (let matching = (if Q c = Q foldersCall
                      then filter (\<lambda>f. d_MimeType f = folderMimeType) objs else objs);
          off = length (PageToken c);
          n = nat (PageSize c)
      in Inr \<lparr>Files = take n (drop off matching),
              NextPageToken = (if off + n < length matching then pageTokenAt (off + n) else [])\<rparr>)"

definition paged_service :: "drive_File list \<Rightarrow> service" where
  "paged_service objs = offline\<lparr>files_list := paged_list objs\<rparr>"

text \<open>
  1001 folders at the root, with identifiers \<open>f\<close>, \<open>ff\<close>, \<open>fff\<close>, ... and names
  \<open>n\<close>, \<open>nn\<close>, ..., and one file in the last of them.
\<close>

definition nthId :: "nat \<Rightarrow> string" where
  "nthId n = replicate (Suc n) CHR ''f''"

definition nthName :: "nat \<Rightarrow> string" where
  "nthName n = replicate (Suc n) CHR ''n''"

definition manyFolders :: "drive_File list" where
  "manyFolders = map (\<lambda>n. mkFolder (nthId n) (nthName n) []) [0..<1001]"

definition lastFile :: drive_File where
  "lastFile = \<lparr>d_Id = ''x1'', d_Name = ''report.pdf'', d_MimeType = ''application/pdf'',
     d_Size = 10, d_WebViewLink = [], d_Parents = [nthId 1000]\<rparr>"

text \<open>
  The enumeration scenario of the specification: containers A and B without parent, a file
  F1 of 10 bytes in A, an empty file F2 without parent, and F3 in A with the container
  content type and a size.
\<close>

definition scenario_A :: drive_File where
  "scenario_A = mkFolder ''idA'' ''A'' []"

definition scenario_B :: drive_File where
  "scenario_B = mkFolder ''idB'' ''B'' []"

definition scenario_F1 :: drive_File where
  "scenario_F1 = \<lparr>d_Id = ''idF1'', d_Name = ''F1'', d_MimeType = ''text/plain'',
     d_Size = 10, d_WebViewLink = [], d_Parents = [''idA'']\<rparr>"

definition scenario_F2 :: drive_File where
  "scenario_F2 = \<lparr>d_Id = ''idF2'', d_Name = ''F2'', d_MimeType = ''text/plain'',
     d_Size = 0, d_WebViewLink = [], d_Parents = []\<rparr>"

definition scenario_F3 :: drive_File where
  "scenario_F3 = \<lparr>d_Id = ''idF3'', d_Name = ''F3'', d_MimeType = folderMimeType,
     d_Size = 7, d_WebViewLink = [], d_Parents = [''idA'']\<rparr>"

definition scenario_service :: service where
  "scenario_service =
     paged_service [scenario_A, scenario_B, scenario_F1, scenario_F2, scenario_F3]"

text \<open>
  A service whose downloads answer with a given status and a body of five bytes, and a
  writer that fails after three bytes.
\<close>

definition answering :: "int \<Rightarrow> service" where
  "answering status = offline\<lparr>
     files_get := (\<lambda>fileID fields. Inr (mkFolder fileID ''docs'' [])),
     files_get_download := (\<lambda>fileID. Inr \<lparr>StatusCode = status,
        Body = \<lparr>data = ''hello'', failure = None\<rparr>\<rparr>),
     files_export_download := (\<lambda>fileID format. Inr \<lparr>StatusCode = status,
        Body = \<lparr>data = ''hello'', failure = None\<rparr>\<rparr>),
     files_create := (\<lambda>meta media fields. Inr (meta\<lparr>d_Id := ''new1''\<rparr>)),
     revisions_get_download := (\<lambda>fileID revisionID range. Inr \<lparr>StatusCode = status,
        Body = \<lparr>data = ''hello'', failure = None\<rparr>\<rparr>)\<rparr>"

definition buffer :: writer where
  "buffer = \<lparr>accepts = None, wfailure = New ''unused''\<rparr>"

definition fullDisk :: writer where
  "fullDisk = \<lparr>accepts = Some 3, wfailure = New ''no space left on device''\<rparr>"

section \<open>Lookups in the folder index\<close>

lemma fold_upd_notin:
  "k0 \<notin> set (map k fs) \<Longrightarrow> fold (\<lambda>f m. m(k f \<mapsto> v f)) fs m0 k0 = m0 k0"
  by (induction fs arbitrary: m0) auto

lemma fold_upd_distinct:
  "distinct (map k fs) \<Longrightarrow> f \<in> set fs \<Longrightarrow> fold (\<lambda>f m. m(k f \<mapsto> v f)) fs m0 (k f) = Some (v f)"
proof (induction fs arbitrary: m0)
  case Nil then show ?case by simp
next
  case (Cons g fs)
  show ?case
  proof (cases "f = g")
    case True
    with Cons.prems have "k g \<notin> set (map k fs)" by auto
    then have "fold (\<lambda>f m. m(k f \<mapsto> v f)) fs (m0(k g \<mapsto> v g)) (k g) = (m0(k g \<mapsto> v g)) (k g)"
      by (rule fold_upd_notin)
    also have "\<dots> = Some (v g)" by simp
    finally show ?thesis using True by (simp del: fun_upd_apply)
  next
    case False
    with Cons show ?thesis by auto
  qed
qed

lemma fold_upd_dom:
  "fold (\<lambda>f m. m(k f \<mapsto> v f)) fs m0 x \<noteq> None \<longleftrightarrow> x \<in> set (map k fs) \<or> m0 x \<noteq> None"
  by (induction fs arbitrary: m0) auto

lemma folderMap_Some:
  "wf_folders folders \<Longrightarrow> f \<in> set folders \<Longrightarrow> folderMap folders (d_Id f) = Some (d_Name f)"
  unfolding folderMap_def wf_folders_def by (simp add: fold_upd_distinct)

lemma folderParentMap_Some:
  "wf_folders folders \<Longrightarrow> f \<in> set folders \<Longrightarrow> folderParentMap folders (d_Id f) = Some (d_Parents f)"
  unfolding folderParentMap_def wf_folders_def by (simp add: fold_upd_distinct)

lemma find_distinct:
  "distinct (map k fs) \<Longrightarrow> f \<in> set fs \<Longrightarrow> P f \<Longrightarrow> find (\<lambda>g. k g = k f \<and> P g) fs = Some f"
  by (induction fs) (auto simp: image_iff)

lemma parent_linkD:
  "parent_link folders a b \<Longrightarrow> \<exists>f ps. f \<in> set folders \<and> d_Id f = a \<and> d_Parents f = b # ps"
proof -
  assume "parent_link folders a b"
  then obtain f where f: "f \<in> set folders" "d_Id f = a"
    "(case d_Parents f of p # _ \<Rightarrow> p = b | [] \<Rightarrow> False)"
    unfolding parent_link_def list_ex_iff by blast
  from f(3) obtain ps where "d_Parents f = b # ps" by (cases "d_Parents f") auto
  with f show ?thesis by blast
qed

lemma nextID_link:
  assumes "wf_folders folders" "parent_link folders a b"
  shows "nextID folders a = b"
proof -
  from parent_linkD [OF assms(2)] obtain f ps where
    f: "f \<in> set folders" "d_Id f = a" "d_Parents f = b # ps" by blast
  have "find (\<lambda>g. d_Id g = d_Id f \<and> d_Parents g \<noteq> []) folders = Some f"
    using assms(1) f by (intro find_distinct) (auto simp: wf_folders_def)
  then show ?thesis using f by (simp add: nextID_def)
qed

lemma link_facts:
  assumes "wf_folders folders" "parent_link folders a b"
  shows "a \<noteq> []" "folderMap folders a = Some (nameOf folders a)"
    "\<exists>ps. folderParentMap folders a = Some (b # ps)"
proof -
  from parent_linkD [OF assms(2)] obtain f ps where
    f: "f \<in> set folders" "d_Id f = a" "d_Parents f = b # ps" by blast
  show "a \<noteq> []" using assms(1) f by (auto simp: wf_folders_def list_all_iff)
  show "folderMap folders a = Some (nameOf folders a)"
    using folderMap_Some [OF assms(1) f(1)] f by (simp add: nameOf_def)
  show "\<exists>ps. folderParentMap folders a = Some (b # ps)"
    using folderParentMap_Some [OF assms(1) f(1)] f by simp
qed

lemma walk_ListFiles_step:
  assumes "wf_folders folders" "parent_link folders a b" "i < 10" "a \<notin> visited"
  shows "walk_ListFiles folders i a visited parts =
         walk_ListFiles folders (Suc i) b (insert a visited) (nameOf folders a # parts)"
  using link_facts [OF assms(1,2)] nextID_link [OF assms(1,2)] assms(3,4)
  by (subst walk_ListFiles.simps) simp

lemma walk_ListFilesInFolder_step:
  assumes "wf_folders folders" "parent_link folders a b" "i < 10" "a \<notin> visited"
  shows "walk_ListFilesInFolder folders i a visited parts =
         walk_ListFilesInFolder folders (Suc i) b (insert a visited) (nameOf folders a # parts)"
  using link_facts [OF assms(1,2)] assms(3,4)
  by (subst walk_ListFilesInFolder.simps) auto

lemma walk_ListFiles_along:
  assumes "wf_folders folders"
  shows "successively (parent_link folders) (xs @ [b]) \<Longrightarrow> distinct xs \<Longrightarrow>
    set xs \<inter> visited = {} \<Longrightarrow> i + length xs \<le> 10 \<Longrightarrow>
    walk_ListFiles folders i (hd (xs @ [b])) visited parts =
    walk_ListFiles folders (i + length xs) b (visited \<union> set xs)
      (rev (map (nameOf folders) xs) @ parts)"
proof (induction xs arbitrary: i visited parts)
  case Nil then show ?case by simp
next
  case (Cons a xs)
  from Cons.prems(1) have link: "parent_link folders a (hd (xs @ [b]))"
    and rest: "successively (parent_link folders) (xs @ [b])"
    by (cases xs; simp)+
  have "walk_ListFiles folders i a visited parts =
        walk_ListFiles folders (Suc i) (hd (xs @ [b])) (insert a visited) (nameOf folders a # parts)"
    using Cons.prems by (intro walk_ListFiles_step [OF assms link]) auto
  also have "\<dots> = walk_ListFiles folders (Suc i + length xs) b (insert a visited \<union> set xs)
      (rev (map (nameOf folders) xs) @ nameOf folders a # parts)"
    using Cons.prems by (intro Cons.IH [OF rest]) auto
  finally show ?case by simp
qed

lemma walk_ListFilesInFolder_along:
  assumes "wf_folders folders"
  shows "successively (parent_link folders) (xs @ [b]) \<Longrightarrow> distinct xs \<Longrightarrow>
    set xs \<inter> visited = {} \<Longrightarrow> i + length xs \<le> 10 \<Longrightarrow>
    walk_ListFilesInFolder folders i (hd (xs @ [b])) visited parts =
    walk_ListFilesInFolder folders (i + length xs) b (visited \<union> set xs)
      (rev (map (nameOf folders) xs) @ parts)"
proof (induction xs arbitrary: i visited parts)
  case Nil then show ?case by simp
next
  case (Cons a xs)
  from Cons.prems(1) have link: "parent_link folders a (hd (xs @ [b]))"
    and rest: "successively (parent_link folders) (xs @ [b])"
    by (cases xs; simp)+
  have "walk_ListFilesInFolder folders i a visited parts =
        walk_ListFilesInFolder folders (Suc i) (hd (xs @ [b])) (insert a visited) (nameOf folders a # parts)"
    using Cons.prems by (intro walk_ListFilesInFolder_step [OF assms link]) auto
  also have "\<dots> = walk_ListFilesInFolder folders (Suc i + length xs) b (insert a visited \<union> set xs)
      (rev (map (nameOf folders) xs) @ nameOf folders a # parts)"
    using Cons.prems by (intro Cons.IH [OF rest]) auto
  finally show ?case by simp
qed

lemma all2_tl_successively:
  "list_all2 P xs (tl (xs @ [b])) \<Longrightarrow> successively P (xs @ [b])"
proof (induction xs)
  case Nil then show ?case by simp
next
  case (Cons a xs)
  then show ?case by (cases xs) auto
qed

lemma cycle_successively:
  "cs \<noteq> [] \<Longrightarrow> list_all2 P cs (rotate1 cs) \<Longrightarrow> successively P (cs @ [hd cs])"
  using all2_tl_successively [of P cs "hd cs"] by (cases cs) auto

lemma cycle_ListFiles:
  assumes "wf_folders folders" "is_cycle folders cs" "length cs \<le> 10"
  shows "walk_ListFiles folders 0 (hd cs) {} [] = rev (map (nameOf folders) cs)"
proof -
  from assms(2) have ne: "cs \<noteq> []" and d: "distinct cs"
    and s: "successively (parent_link folders) (cs @ [hd cs])"
    by (auto simp: is_cycle_def intro: cycle_successively)
  have "walk_ListFiles folders 0 (hd (cs @ [hd cs])) {} [] =
        walk_ListFiles folders (0 + length cs) (hd cs) ({} \<union> set cs) (rev (map (nameOf folders) cs) @ [])"
    using assms(3) d by (intro walk_ListFiles_along [OF assms(1) s]) auto
  also have "\<dots> = rev (map (nameOf folders) cs)"
    using ne by (subst walk_ListFiles.simps) simp
  finally show ?thesis using ne by simp
qed

lemma cycle_ListFilesInFolder:
  assumes "wf_folders folders" "is_cycle folders cs" "length cs \<le> 10"
  shows "walk_ListFilesInFolder folders 0 (hd cs) {} [] = rev (map (nameOf folders) cs)"
proof -
  from assms(2) have ne: "cs \<noteq> []" and d: "distinct cs"
    and s: "successively (parent_link folders) (cs @ [hd cs])"
    by (auto simp: is_cycle_def intro: cycle_successively)
  have "walk_ListFilesInFolder folders 0 (hd (cs @ [hd cs])) {} [] =
        walk_ListFilesInFolder folders (0 + length cs) (hd cs) ({} \<union> set cs) (rev (map (nameOf folders) cs) @ [])"
    using assms(3) d by (intro walk_ListFilesInFolder_along [OF assms(1) s]) auto
  also have "\<dots> = rev (map (nameOf folders) cs)"
    using ne by (subst walk_ListFilesInFolder.simps) simp
  finally show ?thesis using ne by simp
qed




section \<open>Cycles and deep chains\<close>

lemma chain_take:
  assumes "wf_folders folders" "is_chain folders cs" "10 < length cs"
  shows "successively (parent_link folders) (take 10 cs @ [cs ! 10])" "distinct (take 10 cs)"
    "hd (take 10 cs @ [cs ! 10]) = hd cs"
proof -
  have t: "take 10 cs @ [cs ! 10] = take 11 cs"
    using assms(3) take_Suc_conv_app_nth [of 10 cs] by simp
  have "successively (parent_link folders) (take 11 cs @ drop 11 cs)"
    using assms(2) by (simp add: is_chain_def)
  then have "successively (parent_link folders) (take 11 cs)"
    unfolding successively_append_iff by simp
  then show "successively (parent_link folders) (take 10 cs @ [cs ! 10])" by (simp add: t)
  show "distinct (take 10 cs)" using assms(2) by (simp add: is_chain_def)
  show "hd (take 10 cs @ [cs ! 10]) = hd cs" using assms(3) by (cases cs) auto
qed

text \<open>
  Claim C3. When the first parent identifier starts an acyclic parent chain more than 10
  containers deep, every identifier of which is in the folder index, path resolution
  returns exactly the first 10 resolved segments, from the one nearest the root to the
  nearest container: the names of the first 10 containers of the chain, reversed.
\<close>

theorem C3_deep_chain_first_ten:
  assumes "wf_folders folders" and "is_chain folders cs" and "10 < length cs"
    and "parentIDs \<noteq> []" and "hd parentIDs = hd cs"
  shows "pathParts_ListFiles folders parentIDs = rev (map (nameOf folders) (take 10 cs)) \<and>
         pathParts_ListFilesInFolder folders parentIDs = rev (map (nameOf folders) (take 10 cs)) \<and>
         buildPath_ListFiles folders parentIDs =
           ''My Drive/'' @ Join (rev (map (nameOf folders) (take 10 cs))) ''/'' \<and>
         buildPath_ListFilesInFolder folders parentIDs =
           ''My Drive/'' @ Join (rev (map (nameOf folders) (take 10 cs))) ''/'' \<and>
         length (pathParts_ListFiles folders parentIDs) = 10 \<and>
         length (pathParts_ListFilesInFolder folders parentIDs) = 10"
proof -
  note c = chain_take [OF assms(1-3)]
  have l: "length (take 10 cs) = 10" using assms(3) by simp
  have "walk_ListFiles folders 0 (hd (take 10 cs @ [cs ! 10])) {} [] =
        walk_ListFiles folders (0 + length (take 10 cs)) (cs ! 10) ({} \<union> set (take 10 cs))
          (rev (map (nameOf folders) (take 10 cs)) @ [])"
    using c(2) l by (intro walk_ListFiles_along [OF assms(1) c(1)]) auto
  also have "\<dots> = rev (map (nameOf folders) (take 10 cs))"
    unfolding l by (subst walk_ListFiles.simps) simp
  finally have a: "pathParts_ListFiles folders parentIDs = rev (map (nameOf folders) (take 10 cs))"
    using assms(4,5) c(3) by (cases parentIDs) (auto simp: pathParts_ListFiles_def)
  have "walk_ListFilesInFolder folders 0 (hd (take 10 cs @ [cs ! 10])) {} [] =
        walk_ListFilesInFolder folders (0 + length (take 10 cs)) (cs ! 10) ({} \<union> set (take 10 cs))
          (rev (map (nameOf folders) (take 10 cs)) @ [])"
    using c(2) l by (intro walk_ListFilesInFolder_along [OF assms(1) c(1)]) auto
  also have "\<dots> = rev (map (nameOf folders) (take 10 cs))"
    unfolding l by (subst walk_ListFilesInFolder.simps) simp
  finally have b: "pathParts_ListFilesInFolder folders parentIDs = rev (map (nameOf folders) (take 10 cs))"
    using assms(4,5) c(3) by (cases parentIDs) (auto simp: pathParts_ListFilesInFolder_def)
  have ne: "rev (map (nameOf folders) (take 10 cs)) \<noteq> []" using assms(3) by auto
  show ?thesis
    using a b ne assms(3,4)
    by (simp add: buildPath_ListFiles_def buildPath_ListFilesInFolder_def Let_def)
qed

lemma wf_deep: "wf_folders deep_folders"
  by (simp add: wf_folders_def deep_folders_def mkFolder_def)

lemma chain_deep: "is_chain deep_folders deep_ids"
  by (simp add: is_chain_def deep_folders_def deep_ids_def mkFolder_def parent_link_def)

text \<open>A chain of 11 folders: the path holds the names of the first 10.\<close>

theorem C3_deep_chain_witness:
  "wf_folders deep_folders \<and> is_chain deep_folders deep_ids \<and> 10 < length deep_ids \<and>
   buildPath_ListFiles deep_folders [''f0''] = ''My Drive/n9/n8/n7/n6/n5/n4/n3/n2/n1/n0'' \<and>
   buildPath_ListFilesInFolder deep_folders [''f0''] = ''My Drive/n9/n8/n7/n6/n5/n4/n3/n2/n1/n0''"
proof -
  have l: "10 < length deep_ids" by (simp add: deep_ids_def)
  have n: "map (nameOf deep_folders) (take 10 deep_ids) =
    [''n0'', ''n1'', ''n2'', ''n3'', ''n4'', ''n5'', ''n6'', ''n7'', ''n8'', ''n9'']"
    by (simp add: deep_ids_def deep_folders_def mkFolder_def nameOf_def folderMap_def)
  show ?thesis
    using C3_deep_chain_first_ten [OF wf_deep chain_deep l, of "[''f0'']"] wf_deep chain_deep l
    by (simp add: n) (simp add: deep_ids_def)
qed

text \<open>
  Claim C1, amended. When the first parent identifier starts a cycle of length
  \<open>k \<le> 10\<close> in the folder index, path resolution ends (both loops are total
  functions, bounded by the step counter) and the path holds at most \<open>k\<close> resolved
  segments: exactly one for each container of the cycle, the start of the cycle last.
\<close>

theorem C1_cycle_all_resolved:
  assumes "wf_folders folders" and "is_cycle folders cs" and "length cs \<le> 10"
    and "parentIDs \<noteq> []" and "hd parentIDs = hd cs"
  shows "pathParts_ListFiles folders parentIDs = rev (map (nameOf folders) cs) \<and>
         pathParts_ListFilesInFolder folders parentIDs = rev (map (nameOf folders) cs) \<and>
         length (pathParts_ListFiles folders parentIDs) \<le> length cs \<and>
         length (pathParts_ListFilesInFolder folders parentIDs) \<le> length cs"
  using cycle_ListFiles [OF assms(1-3)] cycle_ListFilesInFolder [OF assms(1-3)] assms(4,5)
  by (cases parentIDs) (auto simp: pathParts_ListFiles_def pathParts_ListFilesInFolder_def)

lemma wf_cycle_AB: "wf_folders cycle_AB"
  by (simp add: wf_folders_def cycle_AB_def mkFolder_def)

lemma is_cycle_AB: "is_cycle cycle_AB [''idA'', ''idB'']"
  by (simp add: is_cycle_def cycle_AB_def mkFolder_def parent_link_def)

text \<open>A cycle of two folders, A in B and B in A.\<close>

theorem C1_cycle_witness:
  "wf_folders cycle_AB \<and> is_cycle cycle_AB [''idA'', ''idB''] \<and>
   pathParts_ListFiles cycle_AB [''idA'', ''idX''] = [''B'', ''A''] \<and>
   pathParts_ListFilesInFolder cycle_AB [''idA'', ''idX''] = [''B'', ''A'']"
proof -
  have n: "nameOf cycle_AB ''idA'' = ''A''" "nameOf cycle_AB ''idB'' = ''B''"
    by (simp_all add: cycle_AB_def mkFolder_def nameOf_def folderMap_def)
  show ?thesis
    using C1_cycle_all_resolved [OF wf_cycle_AB is_cycle_AB, of "[''idA'', ''idX'']"]
      wf_cycle_AB is_cycle_AB
    by (simp add: n)
qed

text \<open>
  Claim C1 as stated fails on that cycle: \<open>k = 2\<close>, and the path of a file in A
  holds two resolved segments, not at most one.
\<close>

theorem C1_cycle_counterexample:
  "wf_folders cycle_AB \<and> is_cycle cycle_AB [''idA'', ''idB''] \<and>
   length [''idA'', ''idB''] \<le> (10::nat) \<and>
   buildPath_ListFiles cycle_AB [''idA''] = ''My Drive/B/A'' \<and>
   buildPath_ListFilesInFolder cycle_AB [''idA''] = ''My Drive/B/A'' \<and>
   \<not> length (pathParts_ListFiles cycle_AB [''idA'']) \<le> length [''idA'', ''idB''] - 1 \<and>
   \<not> length (pathParts_ListFilesInFolder cycle_AB [''idA'']) \<le> length [''idA'', ''idB''] - 1"
proof -
  have n: "nameOf cycle_AB ''idA'' = ''A''" "nameOf cycle_AB ''idB'' = ''B''"
    by (simp_all add: cycle_AB_def mkFolder_def nameOf_def folderMap_def)
  have "walk_ListFiles cycle_AB 0 (hd [''idA'', ''idB'']) {} [] = [''B'', ''A'']"
    using cycle_ListFiles [OF wf_cycle_AB is_cycle_AB] by (simp add: n)
  moreover have "walk_ListFilesInFolder cycle_AB 0 (hd [''idA'', ''idB'']) {} [] = [''B'', ''A'']"
    using cycle_ListFilesInFolder [OF wf_cycle_AB is_cycle_AB] by (simp add: n)
  ultimately show ?thesis
    using wf_cycle_AB is_cycle_AB
    by (simp add: buildPath_ListFiles_def buildPath_ListFilesInFolder_def
        pathParts_ListFiles_def pathParts_ListFilesInFolder_def)
qed



section \<open>Enumeration: filtering and pagination\<close>

lemma collect_ListFiles_append:
  "collect_ListFiles folders (xs @ ys) files =
   collect_ListFiles folders ys (collect_ListFiles folders xs files)"
  by (induction xs arbitrary: files) auto

lemma collect_ListFiles_kept:
  "\<forall>r \<in> set files. Size r \<noteq> 0 \<and> MimeType r \<noteq> folderMimeType \<Longrightarrow>
   \<forall>r \<in> set (collect_ListFiles folders items files). Size r \<noteq> 0 \<and> MimeType r \<noteq> folderMimeType"
proof (induction items arbitrary: files)
  case Nil
  then show ?case by simp
next
  case (Cons item items)
  show ?case
  proof (cases "d_Size item = 0 \<or> d_MimeType item = folderMimeType")
    case True
    then show ?thesis using Cons.IH [OF Cons.prems] by simp
  next
    case False
    let ?files = "files @ [\<lparr>ID = d_Id item, Name = d_Name item, MimeType = d_MimeType item,
           Size = d_Size item, WebViewLink = d_WebViewLink item, Parents = d_Parents item,
           FolderPath = buildPath_ListFiles folders (d_Parents item)\<rparr>]"
    have "\<forall>r \<in> set ?files. Size r \<noteq> 0 \<and> MimeType r \<noteq> folderMimeType"
      using Cons.prems False by simp
    from Cons.IH [OF this] show ?thesis using False by simp
  qed
qed

lemma pages_ListFiles_kept:
  assumes "pages_ListFiles srv folders pageToken files = Some res"
  shows "(\<forall>r \<in> set files. Size r \<noteq> 0 \<and> MimeType r \<noteq> folderMimeType) \<longrightarrow>
         (\<forall>out. res = Inr out \<longrightarrow> (\<forall>r \<in> set out. Size r \<noteq> 0 \<and> MimeType r \<noteq> folderMimeType))"
proof (rule pages_ListFiles.raw_induct [where P = "\<lambda>srv folders pageToken files res.
    (\<forall>r \<in> set files. Size r \<noteq> 0 \<and> MimeType r \<noteq> folderMimeType) \<longrightarrow>
    (\<forall>out. res = Inr out \<longrightarrow> (\<forall>r \<in> set out. Size r \<noteq> 0 \<and> MimeType r \<noteq> folderMimeType))",
    OF _ assms])
  fix rec :: "service \<Rightarrow> drive_File list \<Rightarrow> string \<Rightarrow> FileInfo list \<Rightarrow> (error + FileInfo list) option"
    and srv :: service and folders pageToken files res
  assume IH: "\<And>srv folders pageToken files res.
      rec srv folders pageToken files = Some res \<Longrightarrow>
      (\<forall>r \<in> set files. Size r \<noteq> 0 \<and> MimeType r \<noteq> folderMimeType) \<longrightarrow>
      (\<forall>out. res = Inr out \<longrightarrow> (\<forall>r \<in> set out. Size r \<noteq> 0 \<and> MimeType r \<noteq> folderMimeType))"
    and step: "(case files_list srv \<lparr>Q = [],
         Fields = ''nextPageToken, files(id, name, mimeType, size, webViewLink, parents)'',
         PageSize = MaxPageSize, PageToken = pageToken\<rparr> of
        Inl err \<Rightarrow> Some (Inl (Errorf_w ''unable to retrieve files'' err))
      | Inr r \<Rightarrow>
          if NextPageToken r = []
          then Some (Inr (collect_ListFiles folders (Files r) files))
          else rec srv folders (NextPageToken r)
                 (collect_ListFiles folders (Files r) files)) = Some res"
  show "(\<forall>r \<in> set files. Size r \<noteq> 0 \<and> MimeType r \<noteq> folderMimeType) \<longrightarrow>
    (\<forall>out. res = Inr out \<longrightarrow> (\<forall>r \<in> set out. Size r \<noteq> 0 \<and> MimeType r \<noteq> folderMimeType))"
  proof (intro impI allI)
    fix out
    assume f: "\<forall>r \<in> set files. Size r \<noteq> 0 \<and> MimeType r \<noteq> folderMimeType" and o: "res = Inr out"
    show "\<forall>r \<in> set out. Size r \<noteq> 0 \<and> MimeType r \<noteq> folderMimeType"
    proof (cases "files_list srv \<lparr>Q = [],
         Fields = ''nextPageToken, files(id, name, mimeType, size, webViewLink, parents)'',
         PageSize = MaxPageSize, PageToken = pageToken\<rparr>")
      case (Inl err)
      with step o show ?thesis by simp
    next
      case (Inr page)
      note k = collect_ListFiles_kept [OF f, of folders "Files page"]
      show ?thesis
      proof (cases "NextPageToken page = []")
        case True
        with step Inr o k show ?thesis by simp
      next
        case False
        with step Inr have "rec srv folders (NextPageToken page)
            (collect_ListFiles folders (Files page) files) = Some res"
          by simp
        from IH [OF this] k o show ?thesis by blast
      qed
    qed
  qed
qed

lemma pageTokenAt_simps: "length (pageTokenAt n) = n" "pageTokenAt n = [] \<longleftrightarrow> n = 0"
  by (simp_all add: pageTokenAt_def)

lemma Q_foldersCall: "Q foldersCall \<noteq> []"
  by (simp add: foldersCall_def)

lemma files_list_paged_files:
  "files_list (paged_service objs) \<lparr>Q = [],
         Fields = ''nextPageToken, files(id, name, mimeType, size, webViewLink, parents)'',
         PageSize = MaxPageSize, PageToken = pageTokenAt off\<rparr> =
    Inr \<lparr>Files = take 100 (drop off objs),
         NextPageToken = (if off + 100 < length objs then pageTokenAt (off + 100) else [])\<rparr>"
  using Q_foldersCall
  by (simp add: paged_service_def offline_def paged_list_def Let_def pageTokenAt_simps MaxPageSize_def)

lemma pages_ListFiles_paged:
  "pages_ListFiles (paged_service objs) folders (pageTokenAt off) files =
   Some (Inr (collect_ListFiles folders (drop off objs) files))"
proof (induction "length objs - off" arbitrary: off files rule: less_induct)
  case less
  note fl = files_list_paged_files [of objs off]
  show ?case
  proof (cases "off + 100 < length objs")
    case True
    have "pages_ListFiles (paged_service objs) folders (pageTokenAt off) files =
          pages_ListFiles (paged_service objs) folders (pageTokenAt (off + 100))
            (collect_ListFiles folders (take 100 (drop off objs)) files)"
      using True by (subst pages_ListFiles.simps) (simp add: fl pageTokenAt_simps)
    also have "\<dots> = Some (Inr (collect_ListFiles folders (drop (off + 100) objs)
            (collect_ListFiles folders (take 100 (drop off objs)) files)))"
      using True by (intro less) simp
    also have "collect_ListFiles folders (drop (off + 100) objs)
            (collect_ListFiles folders (take 100 (drop off objs)) files) =
          collect_ListFiles folders (take 100 (drop off objs) @ drop (off + 100) objs) files"
      by (simp only: collect_ListFiles_append)
    also have "take 100 (drop off objs) @ drop (off + 100) objs = drop off objs"
      by (metis add.commute append_take_drop_id drop_drop)
    finally show ?thesis .
  next
    case False
    then have "take 100 (drop off objs) = drop off objs" by simp
    then show ?thesis
      using False by (subst pages_ListFiles.simps) (simp add: fl)
  qed
qed

lemma files_list_paged_folders:
  "files_list (paged_service objs) foldersCall =
    Inr \<lparr>Files = take 1000 (filter (\<lambda>f. d_MimeType f = folderMimeType) objs),
         NextPageToken = (if 1000 < length (filter (\<lambda>f. d_MimeType f = folderMimeType) objs)
            then pageTokenAt 1000 else [])\<rparr>"
  by (simp add: paged_service_def offline_def paged_list_def Let_def)
     (simp add: foldersCall_def)

lemma ListFiles_paged:
  "ListFiles (paged_service objs) =
   Some (Inr (collect_ListFiles (take 1000 (filter (\<lambda>f. d_MimeType f = folderMimeType) objs)) objs []))"
  using pages_ListFiles_paged [of objs _ 0 "[]"]
  by (simp add: ListFiles_def pageTokenAt_def files_list_paged_folders)


lemma scenario_folders:
  "take 1000 (filter (\<lambda>f. d_MimeType f = folderMimeType)
     [scenario_A, scenario_B, scenario_F1, scenario_F2, scenario_F3]) =
   [scenario_A, scenario_B, scenario_F3]"
  by (simp add: scenario_A_def scenario_B_def scenario_F1_def scenario_F2_def scenario_F3_def
      mkFolder_def folderMimeType_def)

lemma scenario_path:
  "buildPath_ListFiles [scenario_A, scenario_B, scenario_F3] [''idA''] = ''My Drive/A''"
proof -
  let ?folders = "[scenario_A, scenario_B, scenario_F3]"
  have m: "folderMap ?folders ''idA'' = Some ''A''"
    by (simp add: folderMap_def scenario_A_def scenario_B_def scenario_F3_def mkFolder_def)
  have n: "nextID ?folders ''idA'' = ''idA''"
    by (simp add: nextID_def scenario_A_def scenario_B_def scenario_F3_def mkFolder_def)
  have "walk_ListFiles ?folders 0 ''idA'' {} [] = walk_ListFiles ?folders 1 ''idA'' {''idA''} [''A'']"
    by (subst walk_ListFiles.simps) (simp add: m n)
  also have "\<dots> = [''A'']"
    by (subst walk_ListFiles.simps) simp
  finally show ?thesis
    by (simp add: buildPath_ListFiles_def pathParts_ListFiles_def)
qed

text \<open>
  Claim C4. In the enumeration scenario (containers A and B, files F1 of 10 bytes in A,
  F2 of 0 bytes, F3 in A with the container content type) ListFiles returns exactly one
  record, that of F1, with FolderPath "My Drive/A". In general no record that ListFiles
  returns, from any service, has size 0 or the container content type.
\<close>

theorem C4_enumeration_filter:
  "ListFiles scenario_service =
     Some (Inr [\<lparr>ID = ''idF1'', Name = ''F1'', MimeType = ''text/plain'', Size = 10,
                 WebViewLink = [], Parents = [''idA''], FolderPath = ''My Drive/A''\<rparr>]) \<and>
   (\<forall>out. ListFiles srv = Some (Inr out) \<longrightarrow>
      (\<forall>r \<in> set out. Size r \<noteq> 0 \<and> MimeType r \<noteq> folderMimeType))"
proof
  have "collect_ListFiles [scenario_A, scenario_B, scenario_F3]
      [scenario_A, scenario_B, scenario_F1, scenario_F2, scenario_F3] [] =
    [\<lparr>ID = ''idF1'', Name = ''F1'', MimeType = ''text/plain'', Size = 10,
                 WebViewLink = [], Parents = [''idA''],
       FolderPath = buildPath_ListFiles [scenario_A, scenario_B, scenario_F3] [''idA'']\<rparr>]"
    by (simp add: scenario_A_def scenario_B_def scenario_F1_def scenario_F2_def scenario_F3_def
        mkFolder_def folderMimeType_def)
  then show "ListFiles scenario_service =
     Some (Inr [\<lparr>ID = ''idF1'', Name = ''F1'', MimeType = ''text/plain'', Size = 10,
                 WebViewLink = [], Parents = [''idA''], FolderPath = ''My Drive/A''\<rparr>])"
    unfolding scenario_service_def ListFiles_paged scenario_folders
    by (simp only: scenario_path)
  show "\<forall>out. ListFiles srv = Some (Inr out) \<longrightarrow>
      (\<forall>r \<in> set out. Size r \<noteq> 0 \<and> MimeType r \<noteq> folderMimeType)"
  proof (intro allI impI)
    fix out assume a: "ListFiles srv = Some (Inr out)"
    show "\<forall>r \<in> set out. Size r \<noteq> 0 \<and> MimeType r \<noteq> folderMimeType"
    proof (cases "files_list srv foldersCall")
      case (Inl err)
      with a show ?thesis by (simp add: ListFiles_def)
    next
      case (Inr foldersResp)
      with a have "pages_ListFiles srv (Files foldersResp) [] [] = Some (Inr out)"
        by (simp add: ListFiles_def)
      from pages_ListFiles_kept [OF this] show ?thesis by simp
    qed
  qed
qed

text \<open>
  The general half of C4 at the scenario service: the one record returned is not empty.
\<close>

theorem C4_enumeration_filter_witness:
  "ListFiles scenario_service =
     Some (Inr [\<lparr>ID = ''idF1'', Name = ''F1'', MimeType = ''text/plain'', Size = 10,
                 WebViewLink = [], Parents = [''idA''], FolderPath = ''My Drive/A''\<rparr>]) \<and>
   Size \<lparr>ID = ''idF1'', Name = ''F1'', MimeType = ''text/plain'', Size = 10,
                 WebViewLink = [], Parents = [''idA''], FolderPath = ''My Drive/A''\<rparr> \<noteq> 0"
  using C4_enumeration_filter [of scenario_service] by simp

section \<open>The folder index beyond one page\<close>

lemma fold_upd_None:
  "k0 \<notin> set (map k fs) \<Longrightarrow> m0 k0 = None \<Longrightarrow> fold (\<lambda>f m. m(k f \<mapsto> v f)) fs m0 k0 = None"
  by (simp add: fold_upd_notin)

lemma nthId_inj: "nthId m = nthId n \<longleftrightarrow> m = n"
proof
  assume "nthId m = nthId n"
  then have "length (nthId m) = length (nthId n)" by simp
  then show "m = n" by (simp add: nthId_def)
qed simp

lemma manyFolders_ids: "map d_Id manyFolders = map nthId [0..<1001]"
  by (simp add: manyFolders_def mkFolder_def comp_def)

lemma wf_manyFolders: "wf_folders manyFolders"
proof -
  have "inj_on nthId (set [0..<1001])" by (rule inj_onI) (simp add: nthId_inj)
  then have "distinct (map nthId [0..<1001])" by (simp add: distinct_map)
  moreover have "list_all (\<lambda>f. d_Id f \<noteq> []) manyFolders"
    by (simp add: manyFolders_def mkFolder_def list_all_iff nthId_def)
  ultimately show ?thesis by (simp add: wf_folders_def manyFolders_ids)
qed

lemma last_in_manyFolders: "mkFolder (nthId 1000) (nthName 1000) [] \<in> set manyFolders"
proof -
  have "(1000::nat) \<in> set [0..<1001]" by simp
  then show ?thesis unfolding manyFolders_def set_map by (rule rev_image_eqI) simp
qed

lemma manyFolders_all_folders:
  "filter (\<lambda>f. d_MimeType f = folderMimeType) (lastFile # manyFolders) = manyFolders"
proof -
  have "\<forall>f \<in> set manyFolders. d_MimeType f = folderMimeType"
    by (auto simp: manyFolders_def mkFolder_def folderMimeType_def)
  then have "filter (\<lambda>f. d_MimeType f = folderMimeType) manyFolders = manyFolders"
    by (simp add: filter_id_conv)
  then show ?thesis by (simp add: lastFile_def folderMimeType_def)
qed

lemma take_manyFolders:
  "take 1000 manyFolders = map (\<lambda>n. mkFolder (nthId n) (nthName n) []) [0..<1000]"
  by (simp add: manyFolders_def take_map)

lemma collect_ListFiles_skip:
  "\<forall>item \<in> set items. d_Size item = 0 \<or> d_MimeType item = folderMimeType \<Longrightarrow>
   collect_ListFiles folders items files = files"
  by (induction items) auto

lemma path_without_last:
  "buildPath_ListFiles (take 1000 manyFolders) [nthId 1000] = ''My Drive''"
proof -
  have "nthId 1000 \<notin> set (map d_Id (take 1000 manyFolders))"
    by (auto simp: take_manyFolders mkFolder_def nthId_inj)
  then have "folderMap (take 1000 manyFolders) (nthId 1000) = None"
    unfolding folderMap_def by (rule fold_upd_None) simp
  then have "walk_ListFiles (take 1000 manyFolders) 0 (nthId 1000) {} [] = []"
    by (subst walk_ListFiles.simps) simp
  then show ?thesis by (simp add: buildPath_ListFiles_def pathParts_ListFiles_def)
qed

lemma path_with_last:
  "buildPath_ListFiles manyFolders [nthId 1000] = ''My Drive/'' @ nthName 1000"
proof -
  have m: "folderMap manyFolders (nthId 1000) = Some (nthName 1000)"
    using folderMap_Some [OF wf_manyFolders last_in_manyFolders] by (simp add: mkFolder_def)
  have ne: "nthId 1000 \<noteq> []" by (simp add: nthId_def)
  have "walk_ListFiles manyFolders 0 (nthId 1000) {} [] =
        walk_ListFiles manyFolders 1 (nextID manyFolders (nthId 1000)) {nthId 1000} [nthName 1000]"
    by (subst walk_ListFiles.simps) (simp add: m ne)
  also have "nextID manyFolders (nthId 1000) = nthId 1000"
  proof -
    have "find (\<lambda>folder. d_Id folder = nthId 1000 \<and> d_Parents folder \<noteq> []) manyFolders = None"
      unfolding find_None_iff by (auto simp: manyFolders_def mkFolder_def)
    then show ?thesis by (simp add: nextID_def)
  qed
  also have "walk_ListFiles manyFolders 1 (nthId 1000) {nthId 1000} [nthName 1000] = [nthName 1000]"
    by (subst walk_ListFiles.simps) simp
  finally show ?thesis by (simp add: buildPath_ListFiles_def pathParts_ListFiles_def)
qed

text \<open>
  Claim C2 where the code departs from it. The service holds 1001 folders and one file in
  the last of them. The folder request is answered with the first 1000 folders and a token
  for the next page; ListFiles never asks for that page, so the last folder, which is
  visible to the credential, is missing from the index, and the file is reported at
  "My Drive" although an index of all folders resolves its path to the folder's name.
\<close>

theorem C2_folder_index_first_page_only:
  "files_list (paged_service (lastFile # manyFolders)) foldersCall =
     Inr \<lparr>Files = take 1000 manyFolders, NextPageToken = pageTokenAt 1000\<rparr> \<and>
   mkFolder (nthId 1000) (nthName 1000) [] \<in> set manyFolders \<and>
   folderMap (take 1000 manyFolders) (nthId 1000) = None \<and>
   ListFiles (paged_service (lastFile # manyFolders)) =
     Some (Inr [\<lparr>ID = ''x1'', Name = ''report.pdf'', MimeType = ''application/pdf'', Size = 10,
                 WebViewLink = [], Parents = [nthId 1000], FolderPath = ''My Drive''\<rparr>]) \<and>
   buildPath_ListFiles manyFolders [nthId 1000] = ''My Drive/'' @ nthName 1000"
proof -
  have l: "length manyFolders = 1001" by (simp add: manyFolders_def)
  have a: "files_list (paged_service (lastFile # manyFolders)) foldersCall =
     Inr \<lparr>Files = take 1000 manyFolders, NextPageToken = pageTokenAt 1000\<rparr>"
    unfolding files_list_paged_folders manyFolders_all_folders by (simp add: l)
  have "nthId 1000 \<notin> set (map d_Id (take 1000 manyFolders))"
    by (auto simp: take_manyFolders mkFolder_def nthId_inj)
  then have b: "folderMap (take 1000 manyFolders) (nthId 1000) = None"
    unfolding folderMap_def by (rule fold_upd_None) simp
  have "\<forall>item \<in> set manyFolders. d_Size item = 0 \<or> d_MimeType item = folderMimeType"
    by (auto simp: manyFolders_def mkFolder_def)
  then have "collect_ListFiles (take 1000 manyFolders) (lastFile # manyFolders) [] =
    [\<lparr>ID = ''x1'', Name = ''report.pdf'', MimeType = ''application/pdf'', Size = 10,
                 WebViewLink = [], Parents = [nthId 1000],
       FolderPath = buildPath_ListFiles (take 1000 manyFolders) [nthId 1000]\<rparr>]"
    by (simp add: collect_ListFiles_skip) (simp add: lastFile_def folderMimeType_def)
  then have c: "ListFiles (paged_service (lastFile # manyFolders)) =
     Some (Inr [\<lparr>ID = ''x1'', Name = ''report.pdf'', MimeType = ''application/pdf'', Size = 10,
                 WebViewLink = [], Parents = [nthId 1000], FolderPath = ''My Drive''\<rparr>])"
    unfolding ListFiles_paged manyFolders_all_folders by (simp only: path_without_last)
  from a b c last_in_manyFolders path_with_last show ?thesis by blast
qed

section \<open>Transfers: validation, status and copy\<close>

lemma answering_simps:
  "files_get_download (answering s) f = Inr \<lparr>StatusCode = s, Body = \<lparr>data = ''hello'', failure = None\<rparr>\<rparr>"
  "files_export_download (answering s) f fmt = Inr \<lparr>StatusCode = s, Body = \<lparr>data = ''hello'', failure = None\<rparr>\<rparr>"
  "revisions_get_download (answering s) f r rg = Inr \<lparr>StatusCode = s, Body = \<lparr>data = ''hello'', failure = None\<rparr>\<rparr>"
  "files_get (answering s) f flds = Inr (mkFolder f ''docs'' [])"
  "files_create (answering s) meta media flds = Inr (meta\<lparr>d_Id := ''new1''\<rparr>)"
  by (simp_all add: answering_def offline_def)

lemma copy_examples:
  "io_Copy buffer \<lparr>data = ''hello'', failure = None\<rparr> = (5, None)"
  "io_Copy fullDisk \<lparr>data = ''hello'', failure = None\<rparr> = (3, Some (New ''no space left on device''))"
  by (simp_all add: io_Copy_def buffer_def fullDisk_def)

lemma take_eq_prefix:
  "length p = n \<Longrightarrow> n \<le> length m \<Longrightarrow> take n m = p \<longleftrightarrow> prefix p m"
  by (metis append_eq_conv_conj prefix_def take_is_prefix)

text \<open>
  Claim C5. For a byte range with a negative start, a negative end or a start beyond the
  end, PartialDownloadFile and PartialDownloadRevision issue no request, report 0 bytes
  and return one of their input-validation errors.
\<close>

theorem C5_malformed_range_rejected:
  assumes "StartByte opts < 0 \<or> EndByte opts < 0 \<or> StartByte opts > EndByte opts"
  shows "snd (PartialDownloadFile srv fileID w opts) = [] \<and>
         fst (fst (PartialDownloadFile srv fileID w opts)) = 0 \<and>
         snd (fst (PartialDownloadFile srv fileID w opts)) \<in>
           {Some (New ''file ID cannot be empty''),
            Some (New ''byte positions cannot be negative''),
            Some (New ''start byte must be less than or equal to end byte'')} \<and>
         snd (PartialDownloadRevision srv fileID revisionID w opts) = [] \<and>
         fst (fst (PartialDownloadRevision srv fileID revisionID w opts)) = 0 \<and>
         snd (fst (PartialDownloadRevision srv fileID revisionID w opts)) \<in>
           {Some (New ''file ID cannot be empty''),
            Some (New ''revision ID cannot be empty''),
            Some (New ''byte positions cannot be negative''),
            Some (New ''start byte must be less than or equal to end byte'')}"
  using assms by (auto simp: PartialDownloadFile_def PartialDownloadRevision_def)

text \<open>
  The range of the specification, start 100 and end 50.
\<close>

theorem C5_malformed_range_witness:
  "PartialDownloadFile (answering 206) ''file1'' buffer \<lparr>StartByte = 100, EndByte = 50\<rparr> =
     ((0, Some (New ''start byte must be less than or equal to end byte'')), []) \<and>
   PartialDownloadRevision (answering 206) ''file1'' ''rev1'' buffer \<lparr>StartByte = 100, EndByte = 50\<rparr> =
     ((0, Some (New ''start byte must be less than or equal to end byte'')), [])"
  using C5_malformed_range_rejected [of "\<lparr>StartByte = 100, EndByte = 50\<rparr>" "answering 206" "''file1''" buffer "''rev1''"]
  by (simp add: PartialDownloadFile_def PartialDownloadRevision_def)

text \<open>
  Claim C6. A range download (PartialDownloadFile, PartialDownloadRevision) returns no
  error exactly when its arguments are valid, the download call returns a response with
  status 200 or 206 and the copy succeeds; it then returns the bytes copied. For every
  other status it returns the status error, and when the call itself fails (which is
  how the client reports a refused request) the wrapped error of the call. StreamFile
  returns no error exactly when the identifier is not empty, the call returns a response
  with status 200 and the copy succeeds; every other status, 206 included, and every
  failed call is an error.
\<close>

theorem C6_accepted_statuses:
  "(snd (fst (PartialDownloadFile srv fileID w opts)) = None \<longleftrightarrow>
      fileID \<noteq> [] \<and> 0 \<le> StartByte opts \<and> 0 \<le> EndByte opts \<and> StartByte opts \<le> EndByte opts \<and>
      (\<exists>r. revisions_get_download srv fileID fileID (Some (StartByte opts, EndByte opts)) = Inr r \<and>
           (StatusCode r = 200 \<or> StatusCode r = 206) \<and> snd (io_Copy w (Body r)) = None)) \<and>
   (fileID \<noteq> [] \<longrightarrow> 0 \<le> StartByte opts \<longrightarrow> StartByte opts \<le> EndByte opts \<longrightarrow>
      revisions_get_download srv fileID fileID (Some (StartByte opts, EndByte opts)) = Inr resp \<longrightarrow>
      (StatusCode resp = 200 \<or> StatusCode resp = 206 \<longrightarrow> io_Copy w (Body resp) = (n, None) \<longrightarrow>
         fst (PartialDownloadFile srv fileID w opts) = (n, None)) \<and>
      (StatusCode resp \<noteq> 200 \<and> StatusCode resp \<noteq> 206 \<longrightarrow>
         fst (PartialDownloadFile srv fileID w opts) =
           (0, Some (Errorf_d ''unexpected status code'' (StatusCode resp))))) \<and>
   (fileID \<noteq> [] \<longrightarrow> 0 \<le> StartByte opts \<longrightarrow> StartByte opts \<le> EndByte opts \<longrightarrow>
      revisions_get_download srv fileID fileID (Some (StartByte opts, EndByte opts)) = Inl err \<longrightarrow>
      fst (PartialDownloadFile srv fileID w opts) =
        (0, Some (Errorf_w ''unable to download revision'' err))) \<and>
   (snd (fst (PartialDownloadRevision srv fileID revisionID w opts)) = None \<longleftrightarrow>
      fileID \<noteq> [] \<and> revisionID \<noteq> [] \<and>
      0 \<le> StartByte opts \<and> 0 \<le> EndByte opts \<and> StartByte opts \<le> EndByte opts \<and>
      (\<exists>r. revisions_get_download srv fileID revisionID (Some (StartByte opts, EndByte opts)) = Inr r \<and>
           (StatusCode r = 200 \<or> StatusCode r = 206) \<and> snd (io_Copy w (Body r)) = None)) \<and>
   (fileID \<noteq> [] \<longrightarrow> revisionID \<noteq> [] \<longrightarrow> 0 \<le> StartByte opts \<longrightarrow> StartByte opts \<le> EndByte opts \<longrightarrow>
      revisions_get_download srv fileID revisionID (Some (StartByte opts, EndByte opts)) = Inr resp' \<longrightarrow>
      (StatusCode resp' = 200 \<or> StatusCode resp' = 206 \<longrightarrow> io_Copy w (Body resp') = (n, None) \<longrightarrow>
         fst (PartialDownloadRevision srv fileID revisionID w opts) = (n, None)) \<and>
      (StatusCode resp' \<noteq> 200 \<and> StatusCode resp' \<noteq> 206 \<longrightarrow>
         fst (PartialDownloadRevision srv fileID revisionID w opts) =
           (0, Some (Errorf_d ''unexpected status code'' (StatusCode resp'))))) \<and>
   (fileID \<noteq> [] \<longrightarrow> revisionID \<noteq> [] \<longrightarrow> 0 \<le> StartByte opts \<longrightarrow> StartByte opts \<le> EndByte opts \<longrightarrow>
      revisions_get_download srv fileID revisionID (Some (StartByte opts, EndByte opts)) = Inl err \<longrightarrow>
      fst (PartialDownloadRevision srv fileID revisionID w opts) =
        (0, Some (Errorf_w ''unable to download revision'' err))) \<and>
   (snd (fst (StreamFile srv fileID w)) = None \<longleftrightarrow>
      fileID \<noteq> [] \<and>
      (\<exists>r. files_get_download srv fileID = Inr r \<and> StatusCode r = 200 \<and>
           snd (io_Copy w (Body r)) = None)) \<and>
   (fileID \<noteq> [] \<longrightarrow> files_get_download srv fileID = Inr resp'' \<longrightarrow>
      (StatusCode resp'' = 200 \<longrightarrow> io_Copy w (Body resp'') = (n, None) \<longrightarrow>
         fst (StreamFile srv fileID w) = (n, None)) \<and>
      (StatusCode resp'' \<noteq> 200 \<longrightarrow>
         fst (StreamFile srv fileID w) =
           (0, Some (Errorf_d ''unexpected status code'' (StatusCode resp''))))) \<and>
   (fileID \<noteq> [] \<longrightarrow> files_get_download srv fileID = Inl err \<longrightarrow>
      fst (StreamFile srv fileID w) = (0, Some (Errorf_w ''unable to download file'' err)))"
proof -
  have pf: "snd (fst (PartialDownloadFile srv fileID w opts)) = None \<longleftrightarrow>
      fileID \<noteq> [] \<and> 0 \<le> StartByte opts \<and> 0 \<le> EndByte opts \<and> StartByte opts \<le> EndByte opts \<and>
      (\<exists>r. revisions_get_download srv fileID fileID (Some (StartByte opts, EndByte opts)) = Inr r \<and>
           (StatusCode r = 200 \<or> StatusCode r = 206) \<and> snd (io_Copy w (Body r)) = None)"
    by (cases "revisions_get_download srv fileID fileID (Some (StartByte opts, EndByte opts))")
       (auto simp: PartialDownloadFile_def StatusOK_def StatusPartialContent_def Let_def
          split: prod.splits option.splits)
  have pr: "snd (fst (PartialDownloadRevision srv fileID revisionID w opts)) = None \<longleftrightarrow>
      fileID \<noteq> [] \<and> revisionID \<noteq> [] \<and>
      0 \<le> StartByte opts \<and> 0 \<le> EndByte opts \<and> StartByte opts \<le> EndByte opts \<and>
      (\<exists>r. revisions_get_download srv fileID revisionID (Some (StartByte opts, EndByte opts)) = Inr r \<and>
           (StatusCode r = 200 \<or> StatusCode r = 206) \<and> snd (io_Copy w (Body r)) = None)"
    by (cases "revisions_get_download srv fileID revisionID (Some (StartByte opts, EndByte opts))")
       (auto simp: PartialDownloadRevision_def StatusOK_def StatusPartialContent_def Let_def
          split: prod.splits option.splits)
  have sf: "snd (fst (StreamFile srv fileID w)) = None \<longleftrightarrow>
      fileID \<noteq> [] \<and>
      (\<exists>r. files_get_download srv fileID = Inr r \<and> StatusCode r = 200 \<and>
           snd (io_Copy w (Body r)) = None)"
    by (cases "files_get_download srv fileID")
       (auto simp: StreamFile_def StatusOK_def split: prod.splits option.splits)
  show ?thesis
    unfolding pf pr sf
    by (auto simp: PartialDownloadFile_def PartialDownloadRevision_def StreamFile_def
        StatusOK_def StatusPartialContent_def Let_def)
qed

text \<open>
  A service that answers 206: the range downloads succeed, StreamFile fails. A service
  whose calls fail: no transfer succeeds.
\<close>

theorem C6_accepted_statuses_witness:
  "fst (PartialDownloadFile (answering 206) ''file1'' buffer \<lparr>StartByte = 0, EndByte = 1023\<rparr>) = (5, None) \<and>
   fst (PartialDownloadRevision (answering 206) ''file1'' ''rev1'' buffer \<lparr>StartByte = 0, EndByte = 1023\<rparr>) = (5, None) \<and>
   fst (StreamFile (answering 206) ''file1'' buffer) = (0, Some (Errorf_d ''unexpected status code'' 206)) \<and>
   snd (fst (StreamFile (answering 206) ''file1'' buffer)) \<noteq> None \<and>
   fst (StreamFile offline ''file1'' buffer) =
     (0, Some (Errorf_w ''unable to download file'' (New ''offline''))) \<and>
   fst (PartialDownloadFile offline ''file1'' buffer \<lparr>StartByte = 0, EndByte = 1023\<rparr>) =
     (0, Some (Errorf_w ''unable to download revision'' (New ''offline'')))"
  using C6_accepted_statuses [of "answering 206" "''file1''" buffer
      "\<lparr>StartByte = 0, EndByte = 1023\<rparr>"
      "\<lparr>StatusCode = 206, Body = \<lparr>data = ''hello'', failure = None\<rparr>\<rparr>" 5 "New ''offline''"
      "''rev1''" "\<lparr>StatusCode = 206, Body = \<lparr>data = ''hello'', failure = None\<rparr>\<rparr>"
      "\<lparr>StatusCode = 206, Body = \<lparr>data = ''hello'', failure = None\<rparr>\<rparr>"]
    C6_accepted_statuses [of offline "''file1''" buffer
      "\<lparr>StartByte = 0, EndByte = 1023\<rparr>" _ 5 "New ''offline''" "''rev1''"]
  by (simp add: answering_simps copy_examples offline_def)

text \<open>
  Claim C7. For each of the five transfers, when the response is accepted and the copy
  to the sink stops with an error after \<open>n\<close> bytes, the transfer returns
  \<open>n\<close> together with the wrapped error.
\<close>

theorem C7_partial_count_with_error:
  assumes "fileID \<noteq> []" and "revisionID \<noteq> []" and "format \<noteq> []"
    and "0 \<le> StartByte opts" and "StartByte opts \<le> EndByte opts"
    and "io_Copy w (Body resp) = (n, Some e)"
  shows "(files_get_download srv fileID = Inr resp \<longrightarrow> StatusCode resp = 200 \<longrightarrow>
            fst (StreamFile srv fileID w) =
              (n, Some (Errorf_w ''unable to stream file content'' e))) \<and>
         (revisions_get_download srv fileID fileID (Some (StartByte opts, EndByte opts)) = Inr resp \<longrightarrow>
            StatusCode resp = 200 \<or> StatusCode resp = 206 \<longrightarrow>
            fst (PartialDownloadFile srv fileID w opts) =
              (n, Some (Errorf_w ''unable to write revision content'' e))) \<and>
         (files_export_download srv fileID format = Inr resp \<longrightarrow> StatusCode resp = 200 \<longrightarrow>
            fst (ExportWorkspaceDocument srv fileID w format) =
              (n, Some (Errorf_w ''unable to write exported content'' e))) \<and>
         (revisions_get_download srv fileID revisionID None = Inr resp \<longrightarrow> StatusCode resp = 200 \<longrightarrow>
            fst (DownloadRevision srv fileID revisionID w) =
              (n, Some (Errorf_w ''unable to write revision content'' e))) \<and>
         (revisions_get_download srv fileID revisionID (Some (StartByte opts, EndByte opts)) = Inr resp \<longrightarrow>
            StatusCode resp = 200 \<or> StatusCode resp = 206 \<longrightarrow>
            fst (PartialDownloadRevision srv fileID revisionID w opts) =
              (n, Some (Errorf_w ''unable to write revision content'' e)))"
  using assms
  by (auto simp: PartialDownloadFile_def PartialDownloadRevision_def StreamFile_def
      ExportWorkspaceDocument_def DownloadRevision_def
      StatusOK_def StatusPartialContent_def Let_def)

text \<open>
  A sink that fails after three of five bytes: every transfer reports 3 bytes and the error.
\<close>

theorem C7_partial_count_witness:
  "fst (StreamFile (answering 200) ''file1'' fullDisk) =
     (3, Some (Errorf_w ''unable to stream file content'' (New ''no space left on device''))) \<and>
   fst (PartialDownloadFile (answering 200) ''file1'' fullDisk \<lparr>StartByte = 0, EndByte = 1023\<rparr>) =
     (3, Some (Errorf_w ''unable to write revision content'' (New ''no space left on device''))) \<and>
   fst (ExportWorkspaceDocument (answering 200) ''file1'' fullDisk ''application/pdf'') =
     (3, Some (Errorf_w ''unable to write exported content'' (New ''no space left on device''))) \<and>
   fst (DownloadRevision (answering 200) ''file1'' ''rev1'' fullDisk) =
     (3, Some (Errorf_w ''unable to write revision content'' (New ''no space left on device''))) \<and>
   fst (PartialDownloadRevision (answering 200) ''file1'' ''rev1'' fullDisk \<lparr>StartByte = 0, EndByte = 1023\<rparr>) =
     (3, Some (Errorf_w ''unable to write revision content'' (New ''no space left on device'')))"
  using C7_partial_count_with_error [of "''file1''" "''rev1''" "''application/pdf''"
      "\<lparr>StartByte = 0, EndByte = 1023\<rparr>" fullDisk
      "\<lparr>StatusCode = 200, Body = \<lparr>data = ''hello'', failure = None\<rparr>\<rparr>"
      3 "New ''no space left on device''" "answering 200"]
  by (simp add: answering_simps copy_examples)

text \<open>
  Claim C8. With an empty file name UploadFileFromReader issues no request and returns a
  validation error. With a name, a reader and an empty content type it behaves as with
  the content type "application/octet-stream": it issues one create request with that
  content type and returns the new identifier, or the wrapped error of the service.
\<close>

theorem C8_upload_validation_and_default:
  "snd (UploadFileFromReader srv reader [] mimeType parentFolderID) = [] \<and>
   fst (UploadFileFromReader srv reader [] mimeType parentFolderID) \<in>
     {Inl (New ''reader cannot be nil''), Inl (New ''file name cannot be empty'')} \<and>
   (fileName \<noteq> [] \<longrightarrow>
      UploadFileFromReader srv (Some media) fileName [] parentFolderID =
        UploadFileFromReader srv (Some media) fileName ''application/octet-stream'' parentFolderID \<and>
      (\<exists>meta fields.
         snd (UploadFileFromReader srv (Some media) fileName [] parentFolderID) =
           [Files_Create meta media fields] \<and>
         d_Name meta = fileName \<and> d_MimeType meta = ''application/octet-stream'' \<and>
         fst (UploadFileFromReader srv (Some media) fileName [] parentFolderID) =
           (case files_create srv meta media fields of
              Inl err \<Rightarrow> Inl (Errorf_w ''unable to upload file'' err)
            | Inr uploadedFile \<Rightarrow> Inr (d_Id uploadedFile))))"
  by (auto simp: UploadFileFromReader_def Let_def split: option.splits sum.splits)

text \<open>
  An upload without a name, and an upload without a content type.
\<close>

theorem C8_upload_witness:
  "UploadFileFromReader (answering 200) (Some ''data'') [] ''text/plain'' [] =
     (Inl (New ''file name cannot be empty''), []) \<and>
   UploadFileFromReader (answering 200) (Some ''data'') ''a.bin'' [] [] =
     (Inr ''new1'',
      [Files_Create \<lparr>d_Id = [], d_Name = ''a.bin'', d_MimeType = ''application/octet-stream'',
         d_Size = 0, d_WebViewLink = [], d_Parents = []\<rparr> ''data''
         ''id, name, mimeType, size, parents, webViewLink''])"
  using C8_upload_validation_and_default [of "answering 200" "Some ''data''" "''text/plain''" "[]" "''a.bin''" "''data''"]
  by (simp add: UploadFileFromReader_def answering_simps)

text \<open>
  Claim C9. PartialDownloadFile on a file is PartialDownloadRevision on that file with
  the file's identifier as the revision identifier: the same result and the same
  request, which, when one is issued, is a revision download and not a file download.
\<close>

theorem C9_partial_file_is_partial_revision:
  "PartialDownloadFile srv fileID w opts = PartialDownloadRevision srv fileID fileID w opts \<and>
   snd (PartialDownloadFile srv fileID w opts) \<in>
     {[], [Revisions_Get_Download fileID fileID (Some (StartByte opts, EndByte opts))]}"
  by (auto simp: PartialDownloadFile_def PartialDownloadRevision_def Let_def
      split: sum.splits prod.splits option.splits)

text \<open>
  The request of a range download of a file.
\<close>

theorem C9_partial_file_witness:
  "PartialDownloadFile (answering 206) ''file1'' buffer \<lparr>StartByte = 0, EndByte = 1023\<rparr> =
     ((5, None), [Revisions_Get_Download ''file1'' ''file1'' (Some (0, 1023))]) \<and>
   PartialDownloadRevision (answering 206) ''file1'' ''file1'' buffer \<lparr>StartByte = 0, EndByte = 1023\<rparr> =
     ((5, None), [Revisions_Get_Download ''file1'' ''file1'' (Some (0, 1023))])"
  using C9_partial_file_is_partial_revision [of "answering 206" "''file1''" buffer "\<lparr>StartByte = 0, EndByte = 1023\<rparr>"]
  by (simp add: PartialDownloadFile_def answering_simps copy_examples StatusOK_def StatusPartialContent_def)

text \<open>
  Claim C10. For a file whose metadata the service returns, IsWorkspaceDocument answers
  true exactly when the content type is longer than 28 characters, starts with
  "application/vnd.google-apps." and is not "application/vnd.google-apps.folder"; for a
  folder, whose content type has that prefix, it answers false.
\<close>

theorem C10_workspace_document_test:
  assumes "fileID \<noteq> []" and "files_get srv fileID ''mimeType'' = Inr file"
  shows "fst (IsWorkspaceDocument srv fileID) =
           Inr (28 < length (d_MimeType file) \<and>
                prefix ''application/vnd.google-apps.'' (d_MimeType file) \<and>
                d_MimeType file \<noteq> ''application/vnd.google-apps.folder'') \<and>
         (d_MimeType file = ''application/vnd.google-apps.folder'' \<longrightarrow>
            prefix ''application/vnd.google-apps.'' (d_MimeType file) \<and>
            fst (IsWorkspaceDocument srv fileID) = Inr False)"
proof -
  have "28 < length (d_MimeType file) \<Longrightarrow>
    take 28 (d_MimeType file) = ''application/vnd.google-apps.'' \<longleftrightarrow>
    prefix ''application/vnd.google-apps.'' (d_MimeType file)"
    by (rule take_eq_prefix) simp_all
  then show ?thesis using assms
    by (auto simp: IsWorkspaceDocument_def Let_def)
qed

text \<open>
  The metadata of a folder.
\<close>

theorem C10_workspace_document_witness:
  "fst (IsWorkspaceDocument (answering 200) ''file1'') = Inr False \<and>
   files_get (answering 200) ''file1'' ''mimeType'' = Inr (mkFolder ''file1'' ''docs'' [])"
  using C10_workspace_document_test [of "''file1''" "answering 200" "mkFolder ''file1'' ''docs'' []"]
  by (simp add: answering_simps mkFolder_def)

end
